theory Spec2Isabelle
  imports Main
begin

section \<open>Machine integers\<close>

text \<open>
  Go's \<open>int\<close> and \<open>int64\<close> and Java's \<open>long\<close> are 64-bit two's complement, Java's
  \<open>int\<close> is 32-bit. They are modelled as \<open>int\<close> with the wrap-around written out:
  \<open>wrap_signed w x\<close> is the value a \<open>w\<close>-bit register holds after computing \<open>x\<close>.
\<close>

definition wrap_signed :: "nat \<Rightarrow> int \<Rightarrow> int" where
  "wrap_signed w x = (x + 2 ^ (w - 1)) mod 2 ^ w - 2 ^ (w - 1)"

definition i64 :: "int \<Rightarrow> int" where
  "i64 x = wrap_signed 64 x"

definition i32 :: "int \<Rightarrow> int" where
  "i32 x = wrap_signed 32 x"

definition is_i64 :: "int \<Rightarrow> bool" where
  "is_i64 x = (- (2 ^ 63) \<le> x \<and> x < 2 ^ 63)"

definition is_i32 :: "int \<Rightarrow> bool" where
  "is_i32 x = (- (2 ^ 31) \<le> x \<and> x < 2 ^ 31)"

section \<open>Payload builder\<close>

text \<open>
  \<open>%d\<close> of \<open>fmt.Sprintf\<close> (Go) and \<open>String.format\<close> (Java, in a locale whose digits
  are the ASCII ones): the decimal digits of the value, most significant first, after a
  minus sign when it is negative.
\<close>

definition digit_char :: "nat \<Rightarrow> char" where
  "digit_char d = ''0123456789'' ! d"

fun dec_digits :: "nat \<Rightarrow> string" where
  "dec_digits n =
     (if n < 10 then [digit_char n]
      else dec_digits (n div 10) @ [digit_char (n mod 10)])"

declare dec_digits.simps [simp del]

definition fmt_d :: "int \<Rightarrow> string" where
  "fmt_d v = (if v < 0 then CHR ''-'' # dec_digits (nat (- v)) else dec_digits (nat v))"

text \<open>
  The header both programs write: \<open>fmt.Sprintf("ts=%d|seq=%d|", ts, seq)\<close> in the Go
  backend's \<open>publish\<close>, \<open>String.format("ts=%d|seq=%d|", now, s)\<close> in the Java client's
  location publisher.
\<close>

definition payload_prefix :: "int \<Rightarrow> int \<Rightarrow> string" where
  "payload_prefix ts seq = ''ts='' @ fmt_d ts @ ''|seq='' @ fmt_d seq @ ''|''"

text \<open>
  The payload of the Go backend's \<open>publish(topic, qos, size, seq)\<close>, built at time \<open>ts\<close>:
  \<open>pad := size - len(prefix); if pad < 0 { pad = 0 }\<close>, then a slice of
  \<open>len(prefix)+pad\<close> bytes that holds the prefix followed by \<open>pad\<close> bytes \<open>'x'\<close>.
  \<open>make\<close> panics on a negative length: that is the result \<open>None\<close>. Memory is not
  modelled: a length that fits 64 bits is taken to be allocatable.
\<close>

definition go_payload :: "int \<Rightarrow> int \<Rightarrow> int \<Rightarrow> string option" where
  "go_payload sz ts seq =
     (let prefix = payload_prefix ts seq;
          pad0 = i64 (sz - int (length prefix));
          pad = (if pad0 < 0 then 0 else pad0);
          n = i64 (int (length prefix) + pad)
      in if n < 0 then None
         else Some (prefix @ replicate (nat pad) CHR ''x''))"

text \<open>
  The payload of the Java client's location publisher:
  \<open>size = Math.max(0, cfg.payloadLocation - prefix.length())\<close> and
  \<open>body = prefix + "x".repeat(size)\<close>; all of it is ASCII, so the UTF-8 bytes are the
  characters. A string longer than \<open>Integer.MAX_VALUE\<close> cannot be built (the JVM throws
  an \<open>OutOfMemoryError\<close>): that is the result \<open>None\<close>.
\<close>

definition java_payload :: "int \<Rightarrow> int \<Rightarrow> int \<Rightarrow> string option" where
  "java_payload payloadLocation ts s =
     (let prefix = payload_prefix ts s;
          size = max 0 (i32 (payloadLocation - int (length prefix)))
      in if int (length prefix) + size > 2 ^ 31 - 1 then None
         else Some (prefix @ replicate (nat size) CHR ''x''))"

section \<open>Payload parsers\<close>

text \<open>
  \<open>strings.Index(s, sub)\<close> and \<open>String.indexOf(String)\<close>: the index of the first
  occurrence of \<open>sub\<close> in \<open>s\<close>; \<open>None\<close> is the result \<open>-1\<close>.
\<close>

fun str_index :: "string \<Rightarrow> string \<Rightarrow> nat option" where
  "str_index [] sub = (if sub = [] then Some 0 else None)"
| "str_index (c # cs) sub =
     (if take (length sub) (c # cs) = sub then Some 0
      else map_option Suc (str_index cs sub))"

text \<open>\<open>strings.IndexByte(s, b)\<close>: the index of the first byte \<open>b\<close> of \<open>s\<close>.\<close>

fun index_byte :: "string \<Rightarrow> char \<Rightarrow> nat option" where
  "index_byte [] b = None"
| "index_byte (c # cs) b = (if c = b then Some 0 else map_option Suc (index_byte cs b))"

text \<open>\<open>s.indexOf(ch, from)\<close> of Java: the first index at or after \<open>from\<close>.\<close>

definition indexOf_from :: "string \<Rightarrow> char \<Rightarrow> nat \<Rightarrow> nat option" where
  "indexOf_from s ch from = map_option (\<lambda>j. j + from) (index_byte (drop from s) ch)"

definition is_digit :: "char \<Rightarrow> bool" where
  "is_digit c = (48 \<le> (of_char c :: nat) \<and> (of_char c :: nat) \<le> 57)"

definition digit_val :: "char \<Rightarrow> int" where
  "digit_val c = int (of_char c) - 48"

text \<open>
  The loop of the Go backend's \<open>parseSeq\<close> over the bytes \<open>s[i:j]\<close>:
  \<open>if c < '0' || c > '9' { return -1 }; n = n*10 + int64(c-'0')\<close>, in 64-bit arithmetic.
\<close>

fun go_digits_loop :: "string \<Rightarrow> int \<Rightarrow> int" where
  "go_digits_loop [] n = n"
| "go_digits_loop (c # cs) n =
     (if \<not> is_digit c then - 1
      else go_digits_loop cs (i64 (i64 (n * 10) + digit_val c)))"

definition go_parseSeq :: "string \<Rightarrow> int" where
  "go_parseSeq b =
     (case str_index b ''seq='' of
        None \<Rightarrow> - 1
      | Some i0 \<Rightarrow>
          (let i = i0 + 4 in
           case index_byte (drop i b) CHR ''|'' of
             None \<Rightarrow> - 1
           | Some j0 \<Rightarrow>
               (let j = j0 + i in go_digits_loop (take (j - i) (drop i b)) 0)))"

text \<open>
  \<open>Long.parseLong\<close> of the Java library on ASCII text: an optional sign, then at least
  one decimal digit, and a value that fits 64 bits; anything else is a
  \<open>NumberFormatException\<close> (\<open>None\<close>).
\<close>

definition dec_value :: "string \<Rightarrow> int" where
  "dec_value s = foldl (\<lambda>a c. a * 10 + digit_val c) 0 s"

definition parseLong :: "string \<Rightarrow> int option" where
  "parseLong s =
     (case s of
        [] \<Rightarrow> None
      | c # cs \<Rightarrow>
          if c = CHR ''-'' then
            (if cs \<noteq> [] \<and> list_all is_digit cs \<and> - (2 ^ 63) \<le> - dec_value cs
             then Some (- dec_value cs) else None)
          else if c = CHR ''+'' then
            (if cs \<noteq> [] \<and> list_all is_digit cs \<and> dec_value cs < 2 ^ 63
             then Some (dec_value cs) else None)
          else
            (if list_all is_digit s \<and> dec_value s < 2 ^ 63
             then Some (dec_value s) else None))"

text \<open>
  The Java client's \<open>parseSeq\<close> and \<open>parseTs\<close>, on a payload of ASCII bytes (for which
  the decoded string has one character per byte). The two methods differ only in the key
  they look for and in its length (\<open>i += 4\<close> and \<open>i += 3\<close>): \<open>indexOf\<close> of the key,
  \<open>indexOf('|', i)\<close>, \<open>Long.parseLong(s.substring(i, j))\<close>. Every exception is caught
  and gives \<open>-1\<close>.
\<close>

definition java_parseField :: "string \<Rightarrow> string \<Rightarrow> int" where
  "java_parseField key payload =
     (case str_index payload key of
        None \<Rightarrow> - 1
      | Some i0 \<Rightarrow>
          (let i = i0 + length key in
           case indexOf_from payload CHR ''|'' i of
             None \<Rightarrow> - 1
           | Some j \<Rightarrow>
               (case parseLong (take (j - i) (drop i payload)) of
                  None \<Rightarrow> - 1
                | Some v \<Rightarrow> v)))"

definition java_parseSeq :: "string \<Rightarrow> int" where
  "java_parseSeq payload = java_parseField ''seq='' payload"


text \<open>
  The text both parsers read as the sequence number: what lies between the first
  \<open>seq=\<close> and the first \<open>|\<close> after it, when both are there.
\<close>

definition seq_field :: "string \<Rightarrow> string option" where
  "seq_field b =
     (case str_index b ''seq='' of
        None \<Rightarrow> None
      | Some i0 \<Rightarrow>
          (case index_byte (drop (i0 + 4) b) CHR ''|'' of
             None \<Rightarrow> None
           | Some j0 \<Rightarrow> Some (take j0 (drop (i0 + 4) b))))"

definition is_ascii :: "string \<Rightarrow> bool" where
  "is_ascii s = list_all (\<lambda>c. (of_char c :: nat) < 128) s"

section \<open>Subscription consumer of the Java client\<close>




section \<open>Liveness monitor\<close>






section \<open>Configuration of the Go backend\<close>

text \<open>
  The \<open>Config\<close> struct, one record for each nested struct; a pointer-typed field is an
  option (\<open>None\<close> is \<open>nil\<close>). The fields of \<open>QoS\<close> and \<open>PayloadBytes\<close> carry a prefix,
  since \<open>Offer\<close> and \<open>Ride\<close> name a field in both.
\<close>

record mqtt_cfg =
  Host :: string
  Port :: int
  ClientID :: string
  KeepAliveSecs :: int
  ProtocolVersion :: int
  CleanSession :: "bool option"

record retry_cfg =
  Enabled :: "bool option"
  ConnectTimeoutMs :: int
  MaxReconnectIntervalMs :: int
  PingTimeoutMs :: int
  WriteTimeoutMs :: int

record publish_cfg =
  OfferEveryMs :: int
  RideEveryMs :: int

record qos_cfg =
  qos_Location :: "int option"
  qos_Offer :: "int option"
  qos_Ride :: "int option"

record payload_cfg =
  payload_Offer :: int
  payload_Ride :: int

record socket_cfg =
  TCPKeepAliveSecs :: int
  TCPNoDelay :: bool
  ReadBuffer :: int
  WriteBuffer :: int

record buffer_cfg =
  MaxInflight :: int
  BufferEnabled :: bool
  BufferSize :: int
  DropOldest :: bool
  Persist :: bool

record Config =
  MQTT :: mqtt_cfg
  Retry :: retry_cfg
  Publish :: publish_cfg
  QoS :: qos_cfg
  PayloadBytes :: payload_cfg
  Socket :: socket_cfg
  BufferInflight :: buffer_cfg
  Log_Debug :: bool

text \<open>
  What \<open>os.ReadFile\<close> and \<open>yaml.Unmarshal\<close> deliver. A document that decodes without
  error is the scalar each key path holds, by type; a key that is absent (or null) has no
  entry. \<open>yaml.Unmarshal\<close> fills a zero-initialised \<open>Config\<close>: a plain field whose key is
  absent keeps Go's zero value (\<open>0\<close>, \<open>""\<close>, \<open>false\<close>), a pointer field stays \<open>nil\<close>.
\<close>

record yaml_doc =
  ints :: "string \<rightharpoonup> int"
  bools :: "string \<rightharpoonup> bool"
  strs :: "string \<rightharpoonup> string"

datatype file_content = Unreadable | Malformed | Doc yaml_doc

datatype load_error = ReadError | UnmarshalError

definition plain_int :: "yaml_doc \<Rightarrow> string \<Rightarrow> int" where
  "plain_int d k = (case ints d k of None \<Rightarrow> 0 | Some v \<Rightarrow> v)"

definition plain_bool :: "yaml_doc \<Rightarrow> string \<Rightarrow> bool" where
  "plain_bool d k = (case bools d k of None \<Rightarrow> False | Some v \<Rightarrow> v)"

definition plain_str :: "yaml_doc \<Rightarrow> string \<Rightarrow> string" where
  "plain_str d k = (case strs d k of None \<Rightarrow> [] | Some v \<Rightarrow> v)"

definition unmarshal :: "yaml_doc \<Rightarrow> Config" where
  "unmarshal d =
     \<lparr>MQTT = \<lparr>Host = plain_str d ''mqtt.host'', Port = plain_int d ''mqtt.port'',
              ClientID = plain_str d ''mqtt.client_id'',
              KeepAliveSecs = plain_int d ''mqtt.keepalive_secs'',
              ProtocolVersion = plain_int d ''mqtt.protocol_version'',
              CleanSession = bools d ''mqtt.clean_session''\<rparr>,
      Retry = \<lparr>Enabled = bools d ''retry.enabled'',
               ConnectTimeoutMs = plain_int d ''retry.connect_timeout_ms'',
               MaxReconnectIntervalMs = plain_int d ''retry.max_reconnect_interval_ms'',
               PingTimeoutMs = plain_int d ''retry.ping_timeout_ms'',
               WriteTimeoutMs = plain_int d ''retry.write_timeout_ms''\<rparr>,
      Publish = \<lparr>OfferEveryMs = plain_int d ''publish.offer_every_ms'',
                 RideEveryMs = plain_int d ''publish.ride_every_ms''\<rparr>,
      QoS = \<lparr>qos_Location = ints d ''qos.location'', qos_Offer = ints d ''qos.offer'',
             qos_Ride = ints d ''qos.ride''\<rparr>,
      PayloadBytes = \<lparr>payload_Offer = plain_int d ''payload_bytes.offer'',
                      payload_Ride = plain_int d ''payload_bytes.ride''\<rparr>,
      Socket = \<lparr>TCPKeepAliveSecs = plain_int d ''socket.tcp_keepalive_secs'',
                TCPNoDelay = plain_bool d ''socket.tcp_nodelay'',
                ReadBuffer = plain_int d ''socket.read_buffer'',
                WriteBuffer = plain_int d ''socket.write_buffer''\<rparr>,
      BufferInflight = \<lparr>MaxInflight = plain_int d ''buffer_inflight.max_inflight'',
                        BufferEnabled = plain_bool d ''buffer_inflight.buffer_enabled'',
                        BufferSize = plain_int d ''buffer_inflight.buffer_size'',
                        DropOldest = plain_bool d ''buffer_inflight.drop_oldest'',
                        Persist = plain_bool d ''buffer_inflight.persist''\<rparr>,
      Log_Debug = plain_bool d ''log.debug''\<rparr>"

text \<open>
  The "Apply defaults" block of \<open>loadConfig\<close>, section by section. Each test reads only
  the field it may overwrite, so the order of the tests does not matter.
\<close>

definition or_default :: "int \<Rightarrow> int \<Rightarrow> int" where
  "or_default v dflt = (if v = 0 then dflt else v)"

definition ptr_default :: "'a option \<Rightarrow> 'a \<Rightarrow> 'a option" where
  "ptr_default p dflt = (if p = None then Some dflt else p)"

definition mqtt_defaults :: "mqtt_cfg \<Rightarrow> mqtt_cfg" where
  "mqtt_defaults m =
     \<lparr>Host = (if Host m = [] then ''mqtt-gateway'' else Host m),
      Port = or_default (Port m) 1883,
      ClientID = (if ClientID m = [] then ''backend-1'' else ClientID m),
      KeepAliveSecs = or_default (KeepAliveSecs m) 15,
      ProtocolVersion = or_default (ProtocolVersion m) 3,
      CleanSession = ptr_default (CleanSession m) True\<rparr>"

definition retry_defaults :: "retry_cfg \<Rightarrow> retry_cfg" where
  "retry_defaults r =
     \<lparr>Enabled = ptr_default (Enabled r) True,
      ConnectTimeoutMs = or_default (ConnectTimeoutMs r) 5000,
      MaxReconnectIntervalMs = or_default (MaxReconnectIntervalMs r) 10000,
      PingTimeoutMs = or_default (PingTimeoutMs r) 5000,
      WriteTimeoutMs = or_default (WriteTimeoutMs r) 5000\<rparr>"

definition publish_defaults :: "publish_cfg \<Rightarrow> publish_cfg" where
  "publish_defaults p =
     \<lparr>OfferEveryMs = or_default (OfferEveryMs p) 1000,
      RideEveryMs = or_default (RideEveryMs p) 2000\<rparr>"

definition qos_defaults :: "qos_cfg \<Rightarrow> qos_cfg" where
  "qos_defaults q =
     \<lparr>qos_Location = ptr_default (qos_Location q) 1,
      qos_Offer = ptr_default (qos_Offer q) 1,
      qos_Ride = ptr_default (qos_Ride q) 1\<rparr>"

definition payload_defaults :: "payload_cfg \<Rightarrow> payload_cfg" where
  "payload_defaults p =
     \<lparr>payload_Offer = or_default (payload_Offer p) 100,
      payload_Ride = or_default (payload_Ride p) 120\<rparr>"

definition socket_defaults :: "socket_cfg \<Rightarrow> socket_cfg" where
  "socket_defaults s =
     \<lparr>TCPKeepAliveSecs = or_default (TCPKeepAliveSecs s) 60,
      TCPNoDelay = TCPNoDelay s,
      ReadBuffer = or_default (ReadBuffer s) (256 * 1024),
      WriteBuffer = or_default (WriteBuffer s) (256 * 1024)\<rparr>"

definition buffer_defaults :: "buffer_cfg \<Rightarrow> buffer_cfg" where
  "buffer_defaults b =
     \<lparr>MaxInflight = or_default (MaxInflight b) 64,
      BufferEnabled = BufferEnabled b,
      BufferSize = or_default (BufferSize b) 1000,
      DropOldest = DropOldest b,
      Persist = Persist b\<rparr>"

definition apply_defaults :: "Config \<Rightarrow> Config" where
  "apply_defaults c =
     \<lparr>MQTT = mqtt_defaults (MQTT c), Retry = retry_defaults (Retry c),
      Publish = publish_defaults (Publish c), QoS = qos_defaults (QoS c),
      PayloadBytes = payload_defaults (PayloadBytes c), Socket = socket_defaults (Socket c),
      BufferInflight = buffer_defaults (BufferInflight c), Log_Debug = Log_Debug c\<rparr>"

definition loadConfig :: "file_content \<Rightarrow> load_error + Config" where
  "loadConfig f =
     (case f of
        Unreadable \<Rightarrow> Inl ReadError
      | Malformed \<Rightarrow> Inl UnmarshalError
      | Doc d \<Rightarrow> Inr (apply_defaults (unmarshal d)))"

text \<open>The keys decoded into plain \<open>int\<close> fields, and the configuration of an empty file.\<close>

definition plain_int_keys :: "string list" where
  "plain_int_keys =
     [''mqtt.port'', ''mqtt.keepalive_secs'', ''mqtt.protocol_version'',
      ''retry.connect_timeout_ms'', ''retry.max_reconnect_interval_ms'',
      ''retry.ping_timeout_ms'', ''retry.write_timeout_ms'',
      ''publish.offer_every_ms'', ''publish.ride_every_ms'',
      ''payload_bytes.offer'', ''payload_bytes.ride'',
      ''socket.tcp_keepalive_secs'', ''socket.read_buffer'', ''socket.write_buffer'',
      ''buffer_inflight.max_inflight'', ''buffer_inflight.buffer_size'']"

definition empty_doc :: yaml_doc where
  "empty_doc = \<lparr>ints = Map.empty, bools = Map.empty, strs = Map.empty\<rparr>"

definition default_cfg :: Config where
  "default_cfg = apply_defaults (unmarshal empty_doc)"

section \<open>Start of the Go backend\<close>




section \<open>Publish pipeline of the Go backend\<close>

record counters =
  published :: int
  acked :: int
  received :: int
  pubOffer :: int
  ackOffer :: int
  pubRide :: int
  ackRide :: int
  recvLocation :: int

text \<open>One call of \<open>client.Publish\<close> (or \<open>cli.publish\<close>), with the sequence number in it.\<close>

record pub_call =
  pc_topic :: string
  pc_qos :: int
  pc_seq :: int
  pc_payload :: string

datatype proc_status = Running | Panicked | Stopped

record go_state =
  cnt :: counters
  offerSeq :: int
  rideSeq :: int
  pubs :: "pub_call list"
  status :: proc_status

definition go_init :: go_state where
  "go_init =
     \<lparr>cnt = \<lparr>published = 0, acked = 0, received = 0, pubOffer = 0, ackOffer = 0,
             pubRide = 0, ackRide = 0, recvLocation = 0\<rparr>,
      offerSeq = 0, rideSeq = 0, pubs = [], status = Running\<rparr>"

text \<open>\<open>atomic.AddInt64(&x, 1)\<close> and \<open>x.Add(1)\<close>.\<close>

definition add1 :: "int \<Rightarrow> int" where
  "add1 x = i64 (x + 1)"

definition count_published :: "string \<Rightarrow> counters \<Rightarrow> counters" where
  "count_published topic c =
     (let c1 = c\<lparr>published := add1 (published c)\<rparr>
      in if topic = ''/driver/offer'' then c1\<lparr>pubOffer := add1 (pubOffer c1)\<rparr>
         else if topic = ''/driver/ride'' then c1\<lparr>pubRide := add1 (pubRide c1)\<rparr>
         else c1)"

definition count_acked :: "string \<Rightarrow> counters \<Rightarrow> counters" where
  "count_acked topic c =
     (let c1 = c\<lparr>acked := add1 (acked c)\<rparr>
      in if topic = ''/driver/offer'' then c1\<lparr>ackOffer := add1 (ackOffer c1)\<rparr>
         else if topic = ''/driver/ride'' then c1\<lparr>ackRide := add1 (ackRide c1)\<rparr>
         else c1)"

text \<open>
  The closure \<open>publish(topic, qos, size, seq)\<close> run at time \<open>ts\<close>: build the payload,
  hand it to \<open>client.Publish\<close>, count it as published. A panic ends the process.
\<close>

definition publish :: "string \<Rightarrow> int \<Rightarrow> int \<Rightarrow> int \<Rightarrow> int \<Rightarrow> go_state \<Rightarrow> go_state" where
  "publish topic qos sz seq ts st =
     (case go_payload sz ts seq of
        None \<Rightarrow> st\<lparr>status := Panicked\<rparr>
      | Some p \<Rightarrow>
          st\<lparr>pubs := pubs st @ [\<lparr>pc_topic = topic, pc_qos = qos, pc_seq = seq, pc_payload = p\<rparr>],
             cnt := count_published topic (cnt st)\<rparr>)"

text \<open>\<open>byte(*cfg.QoS.Offer)\<close>: a nil pointer panics, the conversion keeps the low byte.\<close>

definition qos_byte :: "int option \<Rightarrow> int option" where
  "qos_byte q = map_option (\<lambda>v. v mod 256) q"

datatype token_outcome = Acked | TimedOut | Errored

text \<open>
  What happens to the running backend: a tick of one of the two tickers, with the value
  \<open>client.IsConnectionOpen()\<close> returns at that moment and the time \<open>time.Now()\<close>
  returns; the end of the wait on a publish token; a message on \<open>/driver/location\<close>;
  the transport's connection events; a termination signal.
\<close>

datatype go_event =
    OfferTick bool int
  | RideTick bool int
  | TokenDone string token_outcome
  | LocationMsg string
  | OnConnect bool
  | ConnectionLost
  | Reconnecting
  | Signal

definition offer_tick :: "Config \<Rightarrow> bool \<Rightarrow> int \<Rightarrow> go_state \<Rightarrow> go_state" where
  "offer_tick cfg connected ts st =
     (if connected then
        (let s = add1 (offerSeq st); st1 = st\<lparr>offerSeq := s\<rparr>
         in case qos_byte (qos_Offer (QoS cfg)) of
              None \<Rightarrow> st1\<lparr>status := Panicked\<rparr>
            | Some q \<Rightarrow> publish ''/driver/offer'' q (payload_Offer (PayloadBytes cfg)) s ts st1)
      else st)"

definition ride_tick :: "Config \<Rightarrow> bool \<Rightarrow> int \<Rightarrow> go_state \<Rightarrow> go_state" where
  "ride_tick cfg connected ts st =
     (if connected then
        (let s = add1 (rideSeq st); st1 = st\<lparr>rideSeq := s\<rparr>
         in case qos_byte (qos_Ride (QoS cfg)) of
              None \<Rightarrow> st1\<lparr>status := Panicked\<rparr>
            | Some q \<Rightarrow> publish ''/driver/ride'' q (payload_Ride (PayloadBytes cfg)) s ts st1)
      else st)"

definition token_done :: "string \<Rightarrow> token_outcome \<Rightarrow> go_state \<Rightarrow> go_state" where
  "token_done topic outcome st =
     (case outcome of
        TimedOut \<Rightarrow> st
      | Errored \<Rightarrow> st
      | Acked \<Rightarrow> st\<lparr>cnt := count_acked topic (cnt st)\<rparr>)"

definition location_msg :: "string \<Rightarrow> go_state \<Rightarrow> go_state" where
  "location_msg payload st =
     st\<lparr>cnt := (cnt st)\<lparr>received := add1 (received (cnt st)),
                         recvLocation := add1 (recvLocation (cnt st))\<rparr>\<rparr>"

definition go_step :: "Config \<Rightarrow> go_state \<Rightarrow> go_event \<Rightarrow> go_state" where
  "go_step cfg st ev =
     (if status st \<noteq> Running then st
      else case ev of
        OfferTick connected ts \<Rightarrow> offer_tick cfg connected ts st
      | RideTick connected ts \<Rightarrow> ride_tick cfg connected ts st
      | TokenDone topic outcome \<Rightarrow> token_done topic outcome st
      | LocationMsg payload \<Rightarrow> location_msg payload st
      | OnConnect subscribed \<Rightarrow> st
      | ConnectionLost \<Rightarrow> st
      | Reconnecting \<Rightarrow> st
      | Signal \<Rightarrow> st\<lparr>status := Stopped\<rparr>)"

definition go_run :: "Config \<Rightarrow> go_event list \<Rightarrow> go_state" where
  "go_run cfg evs = foldl (go_step cfg) go_init evs"

fun connected_tick :: "go_event \<Rightarrow> bool" where
  "connected_tick (OfferTick connected ts) = connected"
| "connected_tick (RideTick connected ts) = connected"
| "connected_tick ev = False"

fun offer_tick_open :: "go_event \<Rightarrow> bool" where
  "offer_tick_open (OfferTick connected ts) = connected"
| "offer_tick_open ev = False"

fun ride_tick_open :: "go_event \<Rightarrow> bool" where
  "ride_tick_open (RideTick connected ts) = connected"
| "ride_tick_open ev = False"

definition seqs_on :: "string \<Rightarrow> pub_call list \<Rightarrow> int list" where
  "seqs_on topic ps = map pc_seq (filter (\<lambda>p. pc_topic p = topic) ps)"

text \<open>A list of sequence numbers that is \<open>1, 2, 3, \<dots>\<close> in order.\<close>

definition counts_up :: "int list \<Rightarrow> bool" where
  "counts_up xs = (xs = map int [1..<Suc (length xs)])"

section \<open>Start and publisher of the Java client\<close>

text \<open>
  The connect loop of \<open>main\<close>: \<open>while (true) { try { connect; break } catch
  (MqttException e) { attempts++; Thread.sleep(2000) } }\<close>, run on the outcomes of the
  successive attempts (\<open>True\<close> is a connect that completes). The result is the count of
  failed attempts and the sleeps made, and whether the loop has been left.
\<close>

record connect_loop =
  attempts :: nat
  sleeps_ms :: "nat list"
  connected :: bool



text \<open>
  The location publisher task, run at time \<open>now\<close>; \<open>accepted\<close> tells whether
  \<open>cli.publish\<close> returned (it throws an \<open>MqttException\<close> otherwise, which the task
  catches). The task never looks at the connection. An \<open>Error\<close> is not caught and ends
  the periodic task.
\<close>

record java_pub =
  jseq :: int
  jpublished :: int
  offered :: "pub_call list"
  cancelled :: bool

definition java_pub_init :: java_pub where
  "java_pub_init = \<lparr>jseq = 0, jpublished = 0, offered = [], cancelled = False\<rparr>"

definition location_tick :: "int \<Rightarrow> int \<Rightarrow> java_pub \<Rightarrow> int \<times> bool \<Rightarrow> java_pub" where
  "location_tick payloadLocation qosLocation st tick =
     (let now = fst tick; accepted = snd tick in
      if cancelled st then st
      else
        (let s = add1 (jseq st); st1 = st\<lparr>jseq := s\<rparr>
         in case java_payload payloadLocation now s of
              None \<Rightarrow> st1\<lparr>cancelled := True\<rparr>
            | Some p \<Rightarrow>
                (let st2 = st1\<lparr>offered := offered st1 @
                       [\<lparr>pc_topic = ''/driver/location'', pc_qos = qosLocation,
                         pc_seq = s, pc_payload = p\<rparr>]\<rparr>
                 in if accepted then st2\<lparr>jpublished := add1 (jpublished st2)\<rparr> else st2)))"

definition java_pub_run :: "int \<Rightarrow> int \<Rightarrow> (int \<times> bool) list \<Rightarrow> java_pub" where
  "java_pub_run payloadLocation qosLocation ticks =
     foldl (location_tick payloadLocation qosLocation) java_pub_init ticks"

section \<open>Facts about machine integers and the header\<close>

lemma i64_id: "is_i64 x \<Longrightarrow> i64 x = x"
  unfolding i64_def wrap_signed_def is_i64_def
  by (simp add: mod_pos_pos_trivial)

lemma i32_id: "is_i32 x \<Longrightarrow> i32 x = x"
  unfolding i32_def wrap_signed_def is_i32_def
  by (simp add: mod_pos_pos_trivial)

lemma length_dec_digits: "0 < k \<Longrightarrow> n < 10 ^ k \<Longrightarrow> length (dec_digits n) \<le> k"
proof (induction k arbitrary: n)
  case 0
  then show ?case by simp
next
  case (Suc k)
  show ?case
  proof (cases "n < 10")
    case True
    then show ?thesis by (simp add: dec_digits.simps [of n])
  next
    case False
    then have k: "0 < k" using Suc.prems by (cases k) auto
    have "n div 10 < 10 ^ k" using Suc.prems by (simp add: less_mult_imp_div_less mult.commute)
    then have "length (dec_digits (n div 10)) \<le> k" using Suc.IH k by blast
    then show ?thesis using False by (simp add: dec_digits.simps [of n])
  qed
qed

lemma length_fmt_d: "is_i64 v \<Longrightarrow> length (fmt_d v) \<le> 20"
proof -
  assume v: "is_i64 v"
  have p: "(2::nat) ^ 63 < 10 ^ 19" by simp
  have "nat \<bar>v\<bar> \<le> 2 ^ 63" using v unfolding is_i64_def by (simp add: nat_le_iff abs_le_iff)
  then have "nat \<bar>v\<bar> < 10 ^ 19" using p by linarith
  then have "length (dec_digits (nat \<bar>v\<bar>)) \<le> 19" by (intro length_dec_digits) simp_all
  then show ?thesis unfolding fmt_d_def by (auto simp: abs_if)
qed

lemma length_payload_prefix:
  "is_i64 ts \<Longrightarrow> is_i64 seq \<Longrightarrow> length (payload_prefix ts seq) \<le> 49"
  using length_fmt_d [of ts] length_fmt_d [of seq]
  unfolding payload_prefix_def by simp

lemma go_payload_eq:
  assumes "is_i64 ts" "is_i64 seq"
    and "- (2 ^ 63) + int (length (payload_prefix ts seq)) \<le> sz" "sz < 2 ^ 63"
  shows "go_payload sz ts seq =
    Some (payload_prefix ts seq @
      replicate (nat (sz - int (length (payload_prefix ts seq)))) CHR ''x'')"
proof -
  let ?h = "payload_prefix ts seq"
  have len: "length ?h \<le> 49" using assms(1,2) by (rule length_payload_prefix)
  have d: "is_i64 (sz - int (length ?h))" using assms(3,4) len unfolding is_i64_def by simp
  show ?thesis
  proof (cases "sz - int (length ?h) < 0")
    case True
    have "is_i64 (int (length ?h))" using len unfolding is_i64_def by simp
    then show ?thesis using True d unfolding go_payload_def Let_def by (simp add: i64_id)
  next
    case False
    have "is_i64 sz" using assms(3,4) unfolding is_i64_def by simp
    then show ?thesis using False d unfolding go_payload_def Let_def by (simp add: i64_id)
  qed
qed

lemma java_payload_eq:
  assumes "is_i64 ts" "is_i64 s"
    and "- (2 ^ 31) + int (length (payload_prefix ts s)) \<le> sz" "sz < 2 ^ 31"
  shows "java_payload sz ts s =
    Some (payload_prefix ts s @
      replicate (nat (sz - int (length (payload_prefix ts s)))) CHR ''x'')"
proof -
  let ?h = "payload_prefix ts s"
  have len: "length ?h \<le> 49" using assms(1,2) by (rule length_payload_prefix)
  have d: "is_i32 (sz - int (length ?h))" using assms(3,4) len unfolding is_i32_def by simp
  show ?thesis
  proof (cases "sz - int (length ?h) < 0")
    case True
    then show ?thesis using d len unfolding java_payload_def Let_def
      by (simp add: i32_id max_def)
  next
    case False
    then show ?thesis using d assms(4) unfolding java_payload_def Let_def
      by (simp add: i32_id max_def)
  qed
qed

section \<open>Decimal digits and the two parsers\<close>



lemma is_digit_not_special:
  "is_digit c \<Longrightarrow> c \<noteq> CHR ''s'' \<and> c \<noteq> CHR ''|'' \<and> c \<noteq> CHR ''t'' \<and> c \<noteq> CHR ''-'' \<and> c \<noteq> CHR ''+''"
  by (auto simp: is_digit_def)





lemma digit_val_range: "is_digit c \<Longrightarrow> 0 \<le> digit_val c \<and> digit_val c \<le> 9"
  by (auto simp: is_digit_def digit_val_def)

lemma foldl_digits_mono:
  "list_all is_digit ds \<Longrightarrow> 0 \<le> acc \<Longrightarrow> acc \<le> foldl (\<lambda>a c. a * 10 + digit_val c) acc ds"
proof (induction ds arbitrary: acc)
  case Nil
  then show ?case by simp
next
  case (Cons c ds)
  then have c: "0 \<le> digit_val c" using digit_val_range by simp
  have "acc \<le> acc * 10 + digit_val c" using Cons.prems c by simp
  also have "\<dots> \<le> foldl (\<lambda>a c. a * 10 + digit_val c) (acc * 10 + digit_val c) ds"
    using Cons c by simp
  finally show ?case by simp
qed

lemma go_digits_loop_value:
  "list_all is_digit ds \<Longrightarrow> 0 \<le> acc \<Longrightarrow>
   foldl (\<lambda>a c. a * 10 + digit_val c) acc ds < 2 ^ 63 \<Longrightarrow>
   go_digits_loop ds acc = foldl (\<lambda>a c. a * 10 + digit_val c) acc ds"
proof (induction ds arbitrary: acc)
  case Nil
  then show ?case by simp
next
  case (Cons c ds)
  let ?a = "acc * 10 + digit_val c"
  have c: "0 \<le> digit_val c" using Cons.prems(1) digit_val_range by simp
  have nn: "0 \<le> ?a" using Cons.prems(2) c by simp
  have "?a \<le> foldl (\<lambda>a c. a * 10 + digit_val c) ?a ds"
    using Cons.prems(1) nn by (intro foldl_digits_mono) simp_all
  then have lt: "?a < 2 ^ 63" using Cons.prems(3) by simp
  have "is_i64 (acc * 10)" using lt c Cons.prems(2) unfolding is_i64_def by simp
  moreover have "is_i64 ?a" using lt nn unfolding is_i64_def by simp
  ultimately have "i64 (i64 (acc * 10) + digit_val c) = ?a" by (simp add: i64_id)
  then show ?case using Cons nn by simp
qed

lemma go_digits_loop_dec:
  "list_all is_digit ds \<Longrightarrow> dec_value ds < 2 ^ 63 \<Longrightarrow> go_digits_loop ds 0 = dec_value ds"
  using go_digits_loop_value [of ds 0] by (simp add: dec_value_def)

lemma go_digits_loop_bad:
  "\<exists>c\<in>set ds. \<not> is_digit c \<Longrightarrow> go_digits_loop ds acc = - 1"
  by (induction ds arbitrary: acc) auto



lemma go_parseSeq_field:
  "go_parseSeq b = (case seq_field b of None \<Rightarrow> - 1 | Some f \<Rightarrow> go_digits_loop f 0)"
  by (simp add: go_parseSeq_def seq_field_def Let_def split: option.splits)

lemma java_parseSeq_field:
  "java_parseSeq b =
     (case seq_field b of None \<Rightarrow> - 1
      | Some f \<Rightarrow> (case parseLong f of None \<Rightarrow> - 1 | Some v \<Rightarrow> v))"
proof -
  have e: "\<And>x::nat. x + 4 = Suc (Suc (Suc (Suc x)))" by simp
  show ?thesis
    by (simp add: java_parseSeq_def java_parseField_def seq_field_def indexOf_from_def Let_def e
        split: option.splits)
qed












lemma parseLong_digits:
  assumes "f \<noteq> []" "list_all is_digit f" "dec_value f < 2 ^ 63"
  shows "parseLong f = Some (dec_value f)"
proof -
  obtain c cs where s: "f = c # cs" using assms(1) by (cases f) auto
  have "is_digit c" using assms(2) s by simp
  then have "c \<noteq> CHR ''-''" "c \<noteq> CHR ''+''" using is_digit_not_special by auto
  then show ?thesis using assms(2,3) unfolding parseLong_def s by simp
qed

lemma parseLong_bad:
  assumes "c \<in> set f" "\<not> is_digit c" "c \<noteq> CHR ''+''" "c \<noteq> CHR ''-''"
  shows "parseLong f = None"
proof (cases f)
  case Nil
  then show ?thesis using assms(1) by simp
next
  case (Cons c0 cs)
  have all: "\<not> list_all is_digit f" using assms(1,2) by (auto simp: list_all_iff)
  show ?thesis
  proof (cases "c0 = CHR ''-'' \<or> c0 = CHR ''+''")
    case True
    then have "c \<in> set cs" using assms(1,3,4) Cons by auto
    then have "\<not> list_all is_digit cs" using assms(2) by (auto simp: list_all_iff)
    then show ?thesis using True unfolding parseLong_def Cons by auto
  next
    case False
    then show ?thesis using all unfolding parseLong_def Cons by auto
  qed
qed


lemma seq_field_examples:
  "seq_field ''ts=1|'' = None" "seq_field ''ts=1|seq=7|xx'' = Some ''7''"
  "seq_field ''ts=1|seq=7a|'' = Some ''7a''"
  by (simp_all add: seq_field_def)


section \<open>Liveness and configuration lemmas\<close>



lemma plain_int_zero_absent:
  "plain_int (d\<lparr>ints := (ints d)(k \<mapsto> 0)\<rparr>) k' = plain_int (d\<lparr>ints := (ints d)(k := None)\<rparr>) k'"
  by (simp add: plain_int_def)

lemma plain_bool_ints [simp]: "plain_bool (d\<lparr>ints := m\<rparr>) k = plain_bool d k"
  by (simp add: plain_bool_def)

lemma plain_str_ints [simp]: "plain_str (d\<lparr>ints := m\<rparr>) k = plain_str d k"
  by (simp add: plain_str_def)

lemma plain_key_not_qos:
  "k \<in> set plain_int_keys \<Longrightarrow> k \<noteq> ''qos.location'' \<and> k \<noteq> ''qos.offer'' \<and> k \<noteq> ''qos.ride''"
  unfolding plain_int_keys_def by auto

lemma unmarshal_zero_absent:
  assumes "k \<in> set plain_int_keys"
  shows "unmarshal (d\<lparr>ints := (ints d)(k \<mapsto> 0)\<rparr>) = unmarshal (d\<lparr>ints := (ints d)(k := None)\<rparr>)"
  using plain_key_not_qos [OF assms]
  unfolding unmarshal_def by (auto simp: plain_int_zero_absent)

section \<open>Runs of the publish pipelines\<close>

lemma seqs_on_snoc:
  "seqs_on t (ps @ [p]) = seqs_on t ps @ (if pc_topic p = t then [pc_seq p] else [])"
  by (simp add: seqs_on_def)

lemma upto_snoc: "map int [1..<Suc (Suc m)] = map int [1..<Suc m] @ [int m + 1]"
  by simp

lemma add1_nat: "int m + 1 < 2 ^ 63 \<Longrightarrow> add1 (int m) = int m + 1"
  unfolding add1_def by (rule i64_id) (simp add: is_i64_def)

lemma length_seqs_on_le: "length (seqs_on t ps) \<le> length ps"
  by (simp add: seqs_on_def)

lemma go_step_not_running: "status st \<noteq> Running \<Longrightarrow> go_step cfg st ev = st"
  by (simp add: go_step_def)

text \<open>What one event can do to the published messages and the two counters.\<close>

lemma go_step_cases:
  assumes "status st = Running"
  shows
   "(status (go_step cfg st ev) \<noteq> Running \<and> pubs (go_step cfg st ev) = pubs st) \<or>
    (status (go_step cfg st ev) = Running \<and> pubs (go_step cfg st ev) = pubs st \<and>
       offerSeq (go_step cfg st ev) = offerSeq st \<and> rideSeq (go_step cfg st ev) = rideSeq st \<and>
       (\<forall>ts. ev \<noteq> OfferTick True ts \<and> ev \<noteq> RideTick True ts)) \<or>
    (\<exists>q p ts. ev = OfferTick True ts \<and> status (go_step cfg st ev) = Running \<and>
       offerSeq (go_step cfg st ev) = add1 (offerSeq st) \<and>
       rideSeq (go_step cfg st ev) = rideSeq st \<and>
       pubs (go_step cfg st ev) = pubs st @
         [\<lparr>pc_topic = ''/driver/offer'', pc_qos = q, pc_seq = add1 (offerSeq st),
           pc_payload = p\<rparr>]) \<or>
    (\<exists>q p ts. ev = RideTick True ts \<and> status (go_step cfg st ev) = Running \<and>
       rideSeq (go_step cfg st ev) = add1 (rideSeq st) \<and>
       offerSeq (go_step cfg st ev) = offerSeq st \<and>
       pubs (go_step cfg st ev) = pubs st @
         [\<lparr>pc_topic = ''/driver/ride'', pc_qos = q, pc_seq = add1 (rideSeq st),
           pc_payload = p\<rparr>])"
proof (cases ev)
  case (OfferTick c ts)
  show ?thesis
  proof (cases c)
    case False
    then show ?thesis using assms OfferTick by (simp add: go_step_def offer_tick_def)
  next
    case True
    show ?thesis
    proof (cases "qos_byte (qos_Offer (QoS cfg))")
      case None
      then show ?thesis using assms OfferTick True
        by (simp add: go_step_def offer_tick_def Let_def)
    next
      case (Some q)
      show ?thesis
      proof (cases "go_payload (payload_Offer (PayloadBytes cfg)) ts (add1 (offerSeq st))")
        case None
        then show ?thesis using assms OfferTick True Some
          by (simp add: go_step_def offer_tick_def Let_def publish_def)
      next
        case (Some p)
        then show ?thesis using assms OfferTick True \<open>qos_byte (qos_Offer (QoS cfg)) = Some q\<close>
          by (simp add: go_step_def offer_tick_def Let_def publish_def)
      qed
    qed
  qed
next
  case (RideTick c ts)
  show ?thesis
  proof (cases c)
    case False
    then show ?thesis using assms RideTick by (simp add: go_step_def ride_tick_def)
  next
    case True
    show ?thesis
    proof (cases "qos_byte (qos_Ride (QoS cfg))")
      case None
      then show ?thesis using assms RideTick True
        by (simp add: go_step_def ride_tick_def Let_def)
    next
      case (Some q)
      show ?thesis
      proof (cases "go_payload (payload_Ride (PayloadBytes cfg)) ts (add1 (rideSeq st))")
        case None
        then show ?thesis using assms RideTick True Some
          by (simp add: go_step_def ride_tick_def Let_def publish_def)
      next
        case (Some p)
        then show ?thesis using assms RideTick True \<open>qos_byte (qos_Ride (QoS cfg)) = Some q\<close>
          by (simp add: go_step_def ride_tick_def Let_def publish_def)
      qed
    qed
  qed
next
  case (TokenDone topic outcome)
  then show ?thesis using assms
    by (cases outcome) (simp_all add: go_step_def token_done_def)
next
  case (LocationMsg payload)
  then show ?thesis using assms by (simp add: go_step_def location_msg_def)
next
  case (OnConnect s)
  then show ?thesis using assms by (simp add: go_step_def)
next
  case ConnectionLost
  then show ?thesis using assms by (simp add: go_step_def)
next
  case Reconnecting
  then show ?thesis using assms by (simp add: go_step_def)
next
  case Signal
  then show ?thesis using assms by (simp add: go_step_def)
qed


lemma counts_up_Nil: "counts_up []"
  by (simp add: counts_up_def)

lemma counts_up_snoc: "counts_up xs \<Longrightarrow> counts_up (xs @ [int (length xs) + 1])"
  unfolding counts_up_def by (simp del: upt_Suc add: upt_Suc_append) 

lemma go_step_counts_up:
  assumes inv: "counts_up (seqs_on ''/driver/offer'' (pubs st))"
      "counts_up (seqs_on ''/driver/ride'' (pubs st))"
      "status st = Running \<longrightarrow>
        offerSeq st = int (length (seqs_on ''/driver/offer'' (pubs st))) \<and>
        rideSeq st = int (length (seqs_on ''/driver/ride'' (pubs st)))"
      "length (pubs st) \<le> k"
    and k: "int k + 1 < 2 ^ 63"
  shows "counts_up (seqs_on ''/driver/offer'' (pubs (go_step cfg st ev))) \<and>
      counts_up (seqs_on ''/driver/ride'' (pubs (go_step cfg st ev))) \<and>
      (status (go_step cfg st ev) = Running \<longrightarrow>
        offerSeq (go_step cfg st ev) =
          int (length (seqs_on ''/driver/offer'' (pubs (go_step cfg st ev)))) \<and>
        rideSeq (go_step cfg st ev) =
          int (length (seqs_on ''/driver/ride'' (pubs (go_step cfg st ev))))) \<and>
      length (pubs (go_step cfg st ev)) \<le> Suc k"
proof (cases "status st = Running")
  case False
  then show ?thesis using inv by (simp add: go_step_not_running)
next
  case True
  let ?O = "length (seqs_on ''/driver/offer'' (pubs st))"
  let ?R = "length (seqs_on ''/driver/ride'' (pubs st))"
  have o: "int ?O + 1 < 2 ^ 63"
    using k inv(4) length_seqs_on_le [of "''/driver/offer''" "pubs st"] by linarith
  have r: "int ?R + 1 < 2 ^ 63"
    using k inv(4) length_seqs_on_le [of "''/driver/ride''" "pubs st"] by linarith
  have so: "offerSeq st = int ?O" and sr: "rideSeq st = int ?R" using inv(3) True by simp_all
  from go_step_cases [OF True, of cfg ev]
  show ?thesis
  proof (elim disjE exE conjE)
    assume "status (go_step cfg st ev) \<noteq> Running" "pubs (go_step cfg st ev) = pubs st"
    then show ?thesis using inv(1,2,4) by simp
  next
    assume "status (go_step cfg st ev) = Running" "pubs (go_step cfg st ev) = pubs st"
      "offerSeq (go_step cfg st ev) = offerSeq st" "rideSeq (go_step cfg st ev) = rideSeq st"
    then show ?thesis using inv(1,2,4) so sr by simp
  next
    fix q p ts
    assume a: "offerSeq (go_step cfg st ev) = add1 (offerSeq st)"
      "rideSeq (go_step cfg st ev) = rideSeq st"
      "pubs (go_step cfg st ev) = pubs st @
         [\<lparr>pc_topic = ''/driver/offer'', pc_qos = q, pc_seq = add1 (offerSeq st),
           pc_payload = p\<rparr>]"
    have s: "add1 (offerSeq st) = int ?O + 1" unfolding so using o by (rule add1_nat)
    have n: "seqs_on ''/driver/offer'' (pubs (go_step cfg st ev)) =
        seqs_on ''/driver/offer'' (pubs st) @ [int ?O + 1]"
      unfolding a(3) seqs_on_snoc s by simp
    have u: "seqs_on ''/driver/ride'' (pubs (go_step cfg st ev)) =
        seqs_on ''/driver/ride'' (pubs st)"
      unfolding a(3) seqs_on_snoc by simp
    have "counts_up (seqs_on ''/driver/offer'' (pubs (go_step cfg st ev)))"
      unfolding n using inv(1) by (rule counts_up_snoc)
    moreover have "counts_up (seqs_on ''/driver/ride'' (pubs (go_step cfg st ev)))"
      unfolding u using inv(2) .
    moreover have "offerSeq (go_step cfg st ev) =
          int (length (seqs_on ''/driver/offer'' (pubs (go_step cfg st ev))))"
      unfolding n a(1) s by simp
    moreover have "rideSeq (go_step cfg st ev) =
          int (length (seqs_on ''/driver/ride'' (pubs (go_step cfg st ev))))"
      unfolding u a(2) sr by simp
    moreover have "length (pubs (go_step cfg st ev)) \<le> Suc k"
      unfolding a(3) using inv(4) by simp
    ultimately show ?thesis by blast
  next
    fix q p ts
    assume a: "rideSeq (go_step cfg st ev) = add1 (rideSeq st)"
      "offerSeq (go_step cfg st ev) = offerSeq st"
      "pubs (go_step cfg st ev) = pubs st @
         [\<lparr>pc_topic = ''/driver/ride'', pc_qos = q, pc_seq = add1 (rideSeq st),
           pc_payload = p\<rparr>]"
    have s: "add1 (rideSeq st) = int ?R + 1" unfolding sr using r by (rule add1_nat)
    have n: "seqs_on ''/driver/ride'' (pubs (go_step cfg st ev)) =
        seqs_on ''/driver/ride'' (pubs st) @ [int ?R + 1]"
      unfolding a(3) seqs_on_snoc s by simp
    have u: "seqs_on ''/driver/offer'' (pubs (go_step cfg st ev)) =
        seqs_on ''/driver/offer'' (pubs st)"
      unfolding a(3) seqs_on_snoc by simp
    have "counts_up (seqs_on ''/driver/ride'' (pubs (go_step cfg st ev)))"
      unfolding n using inv(2) by (rule counts_up_snoc)
    moreover have "counts_up (seqs_on ''/driver/offer'' (pubs (go_step cfg st ev)))"
      unfolding u using inv(1) .
    moreover have "rideSeq (go_step cfg st ev) =
          int (length (seqs_on ''/driver/ride'' (pubs (go_step cfg st ev))))"
      unfolding n a(1) s by simp
    moreover have "offerSeq (go_step cfg st ev) =
          int (length (seqs_on ''/driver/offer'' (pubs (go_step cfg st ev))))"
      unfolding u a(2) so by simp
    moreover have "length (pubs (go_step cfg st ev)) \<le> Suc k"
      unfolding a(3) using inv(4) by simp
    ultimately show ?thesis by blast
  qed
qed

lemma go_run_counts_up:
  assumes "int (length evs) < 2 ^ 63"
  shows "counts_up (seqs_on ''/driver/offer'' (pubs (go_run cfg evs))) \<and>
      counts_up (seqs_on ''/driver/ride'' (pubs (go_run cfg evs))) \<and>
      (status (go_run cfg evs) = Running \<longrightarrow>
        offerSeq (go_run cfg evs) =
          int (length (seqs_on ''/driver/offer'' (pubs (go_run cfg evs)))) \<and>
        rideSeq (go_run cfg evs) =
          int (length (seqs_on ''/driver/ride'' (pubs (go_run cfg evs))))) \<and>
      length (pubs (go_run cfg evs)) \<le> length evs"
  using assms
proof (induction evs rule: rev_induct)
  case Nil
  show ?case by (simp add: go_run_def go_init_def seqs_on_def counts_up_Nil)
next
  case (snoc ev evs)
  have r: "go_run cfg (evs @ [ev]) = go_step cfg (go_run cfg evs) ev"
    by (simp add: go_run_def)
  have k: "int (length evs) + 1 < 2 ^ 63" using snoc.prems by simp
  then have "int (length evs) < 2 ^ 63" by simp
  note ih = snoc.IH [OF this]
  show ?case
    unfolding r using go_step_counts_up [of "go_run cfg evs" "length evs" cfg ev] ih k
    by simp
qed
lemma go_run_snoc: "go_run cfg (evs @ [ev]) = go_step cfg (go_run cfg evs) ev"
  by (simp add: go_run_def)

lemma go_run_running_counts:
  "status (go_run cfg evs) = Running \<Longrightarrow>
   length (seqs_on ''/driver/offer'' (pubs (go_run cfg evs))) = length (filter offer_tick_open evs) \<and>
   length (seqs_on ''/driver/ride'' (pubs (go_run cfg evs))) = length (filter ride_tick_open evs)"
proof (induction evs rule: rev_induct)
  case Nil
  show ?case by (simp add: go_run_def go_init_def seqs_on_def)
next
  case (snoc ev evs)
  let ?st = "go_run cfg evs"
  have run: "status ?st = Running"
  proof (rule ccontr)
    assume "status ?st \<noteq> Running"
    then have "go_step cfg ?st ev = ?st" by (rule go_step_not_running)
    then show False using snoc.prems \<open>status ?st \<noteq> Running\<close> by (simp add: go_run_snoc)
  qed
  note ih = snoc.IH [OF run]
  have now: "status (go_step cfg ?st ev) = Running" using snoc.prems by (simp add: go_run_snoc)
  from go_step_cases [OF run, of cfg ev]
  show ?case
  proof (elim disjE exE conjE)
    assume "status (go_step cfg ?st ev) \<noteq> Running"
    then show ?thesis using now by simp
  next
    assume a: "pubs (go_step cfg ?st ev) = pubs ?st"
      "\<forall>ts. ev \<noteq> OfferTick True ts \<and> ev \<noteq> RideTick True ts"
    then have "\<not> offer_tick_open ev" "\<not> ride_tick_open ev" by (cases ev; simp)+
    then show ?thesis using a(1) ih by (simp add: go_run_snoc)
  next
    fix q p ts
    assume a: "ev = OfferTick True ts"
      "pubs (go_step cfg ?st ev) = pubs ?st @
         [\<lparr>pc_topic = ''/driver/offer'', pc_qos = q, pc_seq = add1 (offerSeq ?st),
           pc_payload = p\<rparr>]"
    show ?thesis unfolding go_run_snoc a(2) seqs_on_snoc using ih a(1) by simp
  next
    fix q p ts
    assume a: "ev = RideTick True ts"
      "pubs (go_step cfg ?st ev) = pubs ?st @
         [\<lparr>pc_topic = ''/driver/ride'', pc_qos = q, pc_seq = add1 (rideSeq ?st),
           pc_payload = p\<rparr>]"
    show ?thesis unfolding go_run_snoc a(2) seqs_on_snoc using ih a(1) by simp
  qed
qed

lemma go_step_pubs_le:
  "length (pubs (go_step cfg st ev)) \<le> length (pubs st) + (if connected_tick ev then 1 else 0)"
proof (cases "status st = Running")
  case False
  then show ?thesis by (simp add: go_step_not_running)
next
  case True
  from go_step_cases [OF True, of cfg ev]
  show ?thesis by (elim disjE exE conjE) simp_all
qed

lemma go_run_pubs_le: "length (pubs (go_run cfg evs)) \<le> length (filter connected_tick evs)"
proof (induction evs rule: rev_induct)
  case Nil
  show ?case by (simp add: go_run_def go_init_def)
next
  case (snoc ev evs)
  show ?case
    using go_step_pubs_le [of cfg "go_run cfg evs" ev] snoc.IH
    by (cases "connected_tick ev") (simp_all add: go_run_snoc)
qed

lemma go_step_skipped:
  "go_step cfg st (OfferTick False ts) = st" "go_step cfg st (RideTick False ts) = st"
  by (simp_all add: go_step_def offer_tick_def ride_tick_def)

text \<open>The Java publisher.\<close>

lemma location_tick_cases:
  assumes "\<not> cancelled st"
  shows "(cancelled (location_tick pl q st tick) \<and>
           offered (location_tick pl q st tick) = offered st) \<or>
         (\<exists>p. \<not> cancelled (location_tick pl q st tick) \<and>
           jseq (location_tick pl q st tick) = add1 (jseq st) \<and>
           offered (location_tick pl q st tick) = offered st @
             [\<lparr>pc_topic = ''/driver/location'', pc_qos = q, pc_seq = add1 (jseq st),
               pc_payload = p\<rparr>])"
proof (cases "java_payload pl (fst tick) (add1 (jseq st))")
  case None
  then show ?thesis using assms by (simp add: location_tick_def Let_def)
next
  case (Some p)
  then show ?thesis using assms by (cases "snd tick") (simp_all add: location_tick_def Let_def)
qed

lemma location_tick_cancelled: "cancelled st \<Longrightarrow> location_tick pl q st tick = st"
  by (simp add: location_tick_def Let_def)

lemma java_pub_run_snoc:
  "java_pub_run pl q (ticks @ [tick]) = location_tick pl q (java_pub_run pl q ticks) tick"
  by (simp add: java_pub_run_def)

lemma java_pub_run_counts_up:
  assumes "int (length ticks) < 2 ^ 63"
  shows "counts_up (map pc_seq (offered (java_pub_run pl q ticks))) \<and>
      (\<not> cancelled (java_pub_run pl q ticks) \<longrightarrow>
         jseq (java_pub_run pl q ticks) = int (length ticks) \<and>
         length (offered (java_pub_run pl q ticks)) = length ticks) \<and>
      length (offered (java_pub_run pl q ticks)) \<le> length ticks"
  using assms
proof (induction ticks rule: rev_induct)
  case Nil
  show ?case by (simp add: java_pub_run_def java_pub_init_def counts_up_Nil)
next
  case (snoc tick ticks)
  let ?st = "java_pub_run pl q ticks"
  have k: "int (length ticks) + 1 < 2 ^ 63" using snoc.prems by simp
  then have "int (length ticks) < 2 ^ 63" by simp
  note ih = snoc.IH [OF this]
  show ?case
  proof (cases "cancelled ?st")
    case True
    then show ?thesis using ih by (simp add: java_pub_run_snoc location_tick_cancelled)
  next
    case False
    then have s: "jseq ?st = int (length ticks)" and l: "length (offered ?st) = length ticks"
      using ih by simp_all
    have a1: "add1 (jseq ?st) = int (length ticks) + 1" unfolding s using k by (rule add1_nat)
    from location_tick_cases [OF False, of pl q tick]
    show ?thesis
    proof (elim disjE exE conjE)
      assume "cancelled (location_tick pl q ?st tick)"
        "offered (location_tick pl q ?st tick) = offered ?st"
      then show ?thesis using ih by (simp add: java_pub_run_snoc)
    next
      fix p
      assume a: "\<not> cancelled (location_tick pl q ?st tick)"
        "jseq (location_tick pl q ?st tick) = add1 (jseq ?st)"
        "offered (location_tick pl q ?st tick) = offered ?st @
             [\<lparr>pc_topic = ''/driver/location'', pc_qos = q, pc_seq = add1 (jseq ?st),
               pc_payload = p\<rparr>]"
      have "counts_up (map pc_seq (offered ?st) @ [int (length (map pc_seq (offered ?st))) + 1])"
        using ih by (intro counts_up_snoc) simp
      then have "counts_up (map pc_seq (offered (location_tick pl q ?st tick)))"
        unfolding a(3) a1 using l by simp
      then show ?thesis unfolding java_pub_run_snoc using a a1 l by simp
    qed
  qed
qed



lemma default_cfg_fields:
  "Enabled (Retry default_cfg) = Some True"
  "qos_Offer (QoS default_cfg) = Some 1" "qos_Ride (QoS default_cfg) = Some 1"
  "payload_Offer (PayloadBytes default_cfg) = 100" "payload_Ride (PayloadBytes default_cfg) = 120"
  by (simp_all add: default_cfg_def apply_defaults_def unmarshal_def empty_doc_def
      retry_defaults_def qos_defaults_def payload_defaults_def ptr_default_def or_default_def
      plain_int_def)

lemma go_payload_example:
  "go_payload 100 2000 1 = Some (''ts=2000|seq=1|'' @ replicate 86 CHR ''x'')"
proof -
  have h: "payload_prefix 2000 1 = ''ts=2000|seq=1|''"
    by (simp add: payload_prefix_def fmt_d_def dec_digits.simps digit_char_def)
  have "go_payload 100 2000 1 =
      Some (payload_prefix 2000 1 @ replicate (nat (100 - int (length (payload_prefix 2000 1)))) CHR ''x'')"
    by (rule go_payload_eq) (simp_all add: is_i64_def h)
  then show ?thesis by (simp add: h)
qed

lemma java_payload_example:
  "java_payload 30 1700 1 = Some (''ts=1700|seq=1|'' @ replicate 16 CHR ''x'')"
proof -
  have h: "payload_prefix 1700 1 = ''ts=1700|seq=1|''"
    by (simp add: payload_prefix_def fmt_d_def dec_digits.simps digit_char_def)
  have "java_payload 30 1700 1 =
      Some (payload_prefix 1700 1 @ replicate (nat (30 - int (length (payload_prefix 1700 1)))) CHR ''x'')"
    by (rule java_payload_eq) (simp_all add: is_i64_def h)
  then show ?thesis by (simp add: h)
qed

lemma java_one_tick:
  "\<not> cancelled (java_pub_run 30 1 [(1700, False)])"
  by (simp add: java_pub_run_def java_pub_init_def location_tick_def Let_def add1_def i64_def
      wrap_signed_def java_payload_example)

lemma go_run_example:
  "status (go_run default_cfg [OfferTick True 1000, OfferTick False 1500, OfferTick True 2000]) = Running"
  "seqs_on ''/driver/offer''
     (pubs (go_run default_cfg [OfferTick True 1000, OfferTick False 1500, OfferTick True 2000])) = [1, 2]"
proof -
  have a: "add1 0 = 1" "add1 1 = 2" by (simp_all add: add1_def i64_def wrap_signed_def)
  have h1: "payload_prefix 1000 1 = ''ts=1000|seq=1|''"
    by (simp add: payload_prefix_def fmt_d_def dec_digits.simps digit_char_def)
  have h2: "payload_prefix 2000 2 = ''ts=2000|seq=2|''"
    by (simp add: payload_prefix_def fmt_d_def dec_digits.simps digit_char_def)
  have p1: "go_payload 100 1000 1 = Some (payload_prefix 1000 1 @
      replicate (nat (100 - int (length (payload_prefix 1000 1)))) CHR ''x'')"
    by (rule go_payload_eq) (simp_all add: is_i64_def h1)
  have p2: "go_payload 100 2000 2 = Some (payload_prefix 2000 2 @
      replicate (nat (100 - int (length (payload_prefix 2000 2)))) CHR ''x'')"
    by (rule go_payload_eq) (simp_all add: is_i64_def h2)
  show "status (go_run default_cfg [OfferTick True 1000, OfferTick False 1500, OfferTick True 2000]) = Running"
    by (simp add: go_run_def go_init_def go_step_def offer_tick_def Let_def default_cfg_fields
        qos_byte_def a publish_def p1 p2)
  show "seqs_on ''/driver/offer''
     (pubs (go_run default_cfg [OfferTick True 1000, OfferTick False 1500, OfferTick True 2000])) = [1, 2]"
    by (simp add: go_run_def go_init_def go_step_def offer_tick_def Let_def default_cfg_fields
        qos_byte_def a publish_def p1 p2 seqs_on_def)
qed

section \<open>The claims\<close>

text \<open>
  C1, as stated, fails in the Go backend: a tick that finds the connection closed leaves
  the state as it was, with nothing buffered and no sequence number taken, and after a
  later tick that finds the connection open the transport has been handed that later
  message alone.
\<close>

theorem skipped_tick_counterexample:
  "go_step default_cfg go_init (OfferTick False 1000) = go_init \<and>
   pubs (go_run default_cfg [OfferTick False 1000, OfferTick True 2000]) =
     [\<lparr>pc_topic = ''/driver/offer'', pc_qos = 1, pc_seq = 1,
       pc_payload = ''ts=2000|seq=1|'' @ replicate 86 CHR ''x''\<rparr>]"
proof -
  have a: "add1 0 = 1" by (simp add: add1_def i64_def wrap_signed_def)
  have s1: "go_step default_cfg go_init (OfferTick False 1000) = go_init"
    by (rule go_step_skipped)
  have r: "status go_init = Running" "offerSeq go_init = 0" "pubs go_init = []"
    by (simp_all add: go_init_def)
  have "pubs (go_step default_cfg go_init (OfferTick True 2000)) =
     [\<lparr>pc_topic = ''/driver/offer'', pc_qos = 1, pc_seq = 1,
       pc_payload = ''ts=2000|seq=1|'' @ replicate 86 CHR ''x''\<rparr>]"
    using r by (simp add: go_step_def offer_tick_def Let_def default_cfg_fields qos_byte_def a
        publish_def go_payload_example)
  then show ?thesis using s1 by (simp add: go_run_def)
qed

text \<open>
  C1, amended. In the Go backend a scheduled tick at which the connection is not open is
  skipped: it changes nothing, so no message is built, buffered or sent for it, and over
  any run the messages handed to the transport are at most as many as the ticks that
  found the connection open. In the Java client every tick of the publisher, while the
  task is alive, hands one message to the transport's publish call, whatever the state
  of the connection (the disconnected buffer behind that call is the library's).
\<close>

theorem skipped_tick:
  "go_step cfg st (OfferTick False ts) = st \<and>
   go_step cfg st (RideTick False ts) = st \<and>
   length (pubs (go_run cfg evs)) \<le> length (filter connected_tick evs) \<and>
   (int (length ticks) < 2 ^ 63 \<and> \<not> cancelled (java_pub_run pl q ticks) \<longrightarrow>
      length (offered (java_pub_run pl q ticks)) = length ticks)"
  using java_pub_run_counts_up [of ticks pl q]
  by (simp add: go_step_skipped go_run_pubs_le)

theorem skipped_tick_witness:
  "int (length [(1700::int, False)]) < 2 ^ 63 \<and> \<not> cancelled (java_pub_run 30 1 [(1700, False)]) \<and>
   length (offered (java_pub_run 30 1 [(1700, False)])) = length [(1700::int, False)]"
  using skipped_tick [where ticks = "[(1700, False)]" and pl = 30 and q = 1]
  by (simp add: java_one_tick)






text \<open>
  C4. For every topic the sequence numbers of the messages handed to the transport are
  \<open>1, 2, 3, \<dots>\<close> in order, with no gap and no repeat, over any run of fewer than
  \<open>2^63\<close> events: in the Go backend for the offer and the ride topic, where, while the
  process runs, the count (and the counter) equals the number of that topic's ticks that
  found the connection open; in the Java client for the location topic, where, while the
  publisher task is alive, it equals the number of ticks.
\<close>

theorem sequence_numbers:
  "(int (length evs) < 2 ^ 63 \<longrightarrow>
      seqs_on ''/driver/offer'' (pubs (go_run cfg evs)) =
        map int [1..<Suc (length (seqs_on ''/driver/offer'' (pubs (go_run cfg evs))))] \<and>
      seqs_on ''/driver/ride'' (pubs (go_run cfg evs)) =
        map int [1..<Suc (length (seqs_on ''/driver/ride'' (pubs (go_run cfg evs))))] \<and>
      (status (go_run cfg evs) = Running \<longrightarrow>
         length (seqs_on ''/driver/offer'' (pubs (go_run cfg evs))) =
           length (filter offer_tick_open evs) \<and>
         length (seqs_on ''/driver/ride'' (pubs (go_run cfg evs))) =
           length (filter ride_tick_open evs) \<and>
         offerSeq (go_run cfg evs) = int (length (filter offer_tick_open evs)) \<and>
         rideSeq (go_run cfg evs) = int (length (filter ride_tick_open evs)))) \<and>
   (int (length ticks) < 2 ^ 63 \<longrightarrow>
      map pc_seq (offered (java_pub_run pl q ticks)) =
        map int [1..<Suc (length (offered (java_pub_run pl q ticks)))] \<and>
      (\<not> cancelled (java_pub_run pl q ticks) \<longrightarrow>
         length (offered (java_pub_run pl q ticks)) = length ticks \<and>
         jseq (java_pub_run pl q ticks) = int (length ticks)))"
proof (intro conjI impI)
  assume l: "int (length evs) < 2 ^ 63"
  note g = go_run_counts_up [OF l, of cfg]
  show "seqs_on ''/driver/offer'' (pubs (go_run cfg evs)) =
        map int [1..<Suc (length (seqs_on ''/driver/offer'' (pubs (go_run cfg evs))))]"
    using g unfolding counts_up_def by blast
  show "seqs_on ''/driver/ride'' (pubs (go_run cfg evs)) =
        map int [1..<Suc (length (seqs_on ''/driver/ride'' (pubs (go_run cfg evs))))]"
    using g unfolding counts_up_def by blast
  assume r: "status (go_run cfg evs) = Running"
  note c = go_run_running_counts [OF r]
  show "length (seqs_on ''/driver/offer'' (pubs (go_run cfg evs))) =
           length (filter offer_tick_open evs)"
    "length (seqs_on ''/driver/ride'' (pubs (go_run cfg evs))) =
           length (filter ride_tick_open evs)"
    using c by simp_all
  show "offerSeq (go_run cfg evs) = int (length (filter offer_tick_open evs))"
    "rideSeq (go_run cfg evs) = int (length (filter ride_tick_open evs))"
    using g r c by simp_all
next
  assume l: "int (length ticks) < 2 ^ 63"
  note j = java_pub_run_counts_up [OF l, of pl q]
  show "map pc_seq (offered (java_pub_run pl q ticks)) =
        map int [1..<Suc (length (offered (java_pub_run pl q ticks)))]"
    using j unfolding counts_up_def by simp
  assume "\<not> cancelled (java_pub_run pl q ticks)"
  then show "length (offered (java_pub_run pl q ticks)) = length ticks"
    "jseq (java_pub_run pl q ticks) = int (length ticks)"
    using j by simp_all
qed

theorem sequence_numbers_witness:
  "int (length [OfferTick True 1000, OfferTick False 1500, OfferTick True 2000]) < 2 ^ 63 \<and>
   status (go_run default_cfg [OfferTick True 1000, OfferTick False 1500, OfferTick True 2000]) = Running \<and>
   seqs_on ''/driver/offer''
     (pubs (go_run default_cfg [OfferTick True 1000, OfferTick False 1500, OfferTick True 2000])) = [1, 2] \<and>
   offerSeq (go_run default_cfg [OfferTick True 1000, OfferTick False 1500, OfferTick True 2000]) = 2 \<and>
   int (length [(1700::int, False)]) < 2 ^ 63 \<and>
   \<not> cancelled (java_pub_run 30 1 [(1700, False)]) \<and>
   map pc_seq (offered (java_pub_run 30 1 [(1700, False)])) = [1] \<and>
   jseq (java_pub_run 30 1 [(1700, False)]) = 1"
  using sequence_numbers [where evs = "[OfferTick True 1000, OfferTick False 1500, OfferTick True 2000]"
      and cfg = default_cfg and ticks = "[(1700, False)]" and pl = 30 and q = 1]
  by (simp add: go_run_example java_one_tick)








text \<open>
  C8, as stated, fails: on the payload \<open>seq=-5|\<close> the Go backend's \<open>parseSeq\<close> returns
  the sentinel \<open>-1\<close> (a minus sign is not a digit) while the Java client's returns \<open>-5\<close>
  (\<open>Long.parseLong\<close> accepts a sign).
\<close>

theorem parseSeq_agreement_counterexample:
  "go_parseSeq ''seq=-5|'' = - 1 \<and> java_parseSeq ''seq=-5|'' = - 5 \<and>
   go_parseSeq ''seq=-5|'' \<noteq> java_parseSeq ''seq=-5|''"
  by (simp add: go_parseSeq_def java_parseSeq_def java_parseField_def indexOf_from_def
      parseLong_def is_digit_def dec_value_def digit_val_def)

text \<open>
  C8, amended. On a payload of ASCII bytes the two \<open>parseSeq\<close> agree in these cases:
  when \<open>seq=\<close> is missing or no \<open>|\<close> follows it, both return \<open>-1\<close>; when the text
  between them is a non-empty run of decimal digits whose value is below \<open>2^63\<close>, both
  return that value; when that text holds a character that is neither a digit nor a
  sign, both return \<open>-1\<close>.
\<close>

theorem parseSeq_agreement:
  "(is_ascii b1 \<and> seq_field b1 = None \<longrightarrow> go_parseSeq b1 = - 1 \<and> java_parseSeq b1 = - 1) \<and>
   (is_ascii b2 \<and> seq_field b2 = Some f2 \<and> f2 \<noteq> [] \<and> list_all is_digit f2 \<and>
      dec_value f2 < 2 ^ 63 \<longrightarrow>
      go_parseSeq b2 = dec_value f2 \<and> java_parseSeq b2 = dec_value f2) \<and>
   (is_ascii b3 \<and> seq_field b3 = Some f3 \<and>
      (\<exists>c\<in>set f3. \<not> is_digit c \<and> c \<noteq> CHR ''+'' \<and> c \<noteq> CHR ''-'') \<longrightarrow>
      go_parseSeq b3 = - 1 \<and> java_parseSeq b3 = - 1)"
proof (intro conjI impI)
  assume "is_ascii b1 \<and> seq_field b1 = None"
  then show "go_parseSeq b1 = - 1" "java_parseSeq b1 = - 1"
    by (simp_all add: go_parseSeq_field java_parseSeq_field)
next
  assume a: "is_ascii b2 \<and> seq_field b2 = Some f2 \<and> f2 \<noteq> [] \<and> list_all is_digit f2 \<and>
      dec_value f2 < 2 ^ 63"
  then show "go_parseSeq b2 = dec_value f2"
    by (simp add: go_parseSeq_field go_digits_loop_dec)
  show "java_parseSeq b2 = dec_value f2"
    using a by (simp add: java_parseSeq_field parseLong_digits)
next
  assume a: "is_ascii b3 \<and> seq_field b3 = Some f3 \<and>
      (\<exists>c\<in>set f3. \<not> is_digit c \<and> c \<noteq> CHR ''+'' \<and> c \<noteq> CHR ''-'')"
  then have "\<exists>c\<in>set f3. \<not> is_digit c" by blast
  then show "go_parseSeq b3 = - 1"
    using a by (simp add: go_parseSeq_field go_digits_loop_bad)
  obtain c where "c \<in> set f3" "\<not> is_digit c" "c \<noteq> CHR ''+''" "c \<noteq> CHR ''-''"
    using a by blast
  then have "parseLong f3 = None" by (rule parseLong_bad)
  then show "java_parseSeq b3 = - 1"
    using a by (simp add: java_parseSeq_field)
qed

theorem parseSeq_agreement_witness:
  "is_ascii ''ts=1|'' \<and> seq_field ''ts=1|'' = None \<and>
   go_parseSeq ''ts=1|'' = - 1 \<and> java_parseSeq ''ts=1|'' = - 1 \<and>
   is_ascii ''ts=1|seq=7|xx'' \<and> seq_field ''ts=1|seq=7|xx'' = Some ''7'' \<and>
   ''7'' \<noteq> [] \<and> list_all is_digit ''7'' \<and> dec_value ''7'' < 2 ^ 63 \<and>
   go_parseSeq ''ts=1|seq=7|xx'' = 7 \<and> java_parseSeq ''ts=1|seq=7|xx'' = 7 \<and>
   is_ascii ''ts=1|seq=7a|'' \<and> seq_field ''ts=1|seq=7a|'' = Some ''7a'' \<and>
   (\<exists>c\<in>set ''7a''. \<not> is_digit c \<and> c \<noteq> CHR ''+'' \<and> c \<noteq> CHR ''-'') \<and>
   go_parseSeq ''ts=1|seq=7a|'' = - 1 \<and> java_parseSeq ''ts=1|seq=7a|'' = - 1"
  using parseSeq_agreement [where ?b1.0 = "''ts=1|''" and ?b2.0 = "''ts=1|seq=7|xx''"
      and ?f2.0 = "''7''" and ?b3.0 = "''ts=1|seq=7a|''" and ?f3.0 = "''7a''"]
  by (simp add: seq_field_examples is_ascii_def is_digit_def dec_value_def digit_val_def)

text \<open>
  C10. In the Go backend's \<open>loadConfig\<close>, a file that decodes always loads, and in the
  result every option held in a plain \<open>int\<close> field is its built-in default when the
  decoded value is \<open>0\<close> and the decoded value otherwise, so that for each of these keys
  a file with an explicit \<open>0\<close> loads to the same configuration as the file without the
  key. The pointer-typed options (the three quality levels, \<open>clean_session\<close>,
  \<open>retry.enabled\<close>) are their default only when the key is absent: an explicit value,
  zero or false included, is kept.
\<close>

theorem loadConfig_defaults:
  "case loadConfig (Doc d) of Inl e \<Rightarrow> False | Inr c \<Rightarrow>
    Port (MQTT c) = (if plain_int d ''mqtt.port'' = 0 then 1883 else plain_int d ''mqtt.port'') \<and>
    KeepAliveSecs (MQTT c) = (if plain_int d ''mqtt.keepalive_secs'' = 0 then 15 else plain_int d ''mqtt.keepalive_secs'') \<and>
    ProtocolVersion (MQTT c) = (if plain_int d ''mqtt.protocol_version'' = 0 then 3 else plain_int d ''mqtt.protocol_version'') \<and>
    ConnectTimeoutMs (Retry c) = (if plain_int d ''retry.connect_timeout_ms'' = 0 then 5000 else plain_int d ''retry.connect_timeout_ms'') \<and>
    MaxReconnectIntervalMs (Retry c) = (if plain_int d ''retry.max_reconnect_interval_ms'' = 0 then 10000 else plain_int d ''retry.max_reconnect_interval_ms'') \<and>
    PingTimeoutMs (Retry c) = (if plain_int d ''retry.ping_timeout_ms'' = 0 then 5000 else plain_int d ''retry.ping_timeout_ms'') \<and>
    WriteTimeoutMs (Retry c) = (if plain_int d ''retry.write_timeout_ms'' = 0 then 5000 else plain_int d ''retry.write_timeout_ms'') \<and>
    OfferEveryMs (Publish c) = (if plain_int d ''publish.offer_every_ms'' = 0 then 1000 else plain_int d ''publish.offer_every_ms'') \<and>
    RideEveryMs (Publish c) = (if plain_int d ''publish.ride_every_ms'' = 0 then 2000 else plain_int d ''publish.ride_every_ms'') \<and>
    payload_Offer (PayloadBytes c) = (if plain_int d ''payload_bytes.offer'' = 0 then 100 else plain_int d ''payload_bytes.offer'') \<and>
    payload_Ride (PayloadBytes c) = (if plain_int d ''payload_bytes.ride'' = 0 then 120 else plain_int d ''payload_bytes.ride'') \<and>
    TCPKeepAliveSecs (Socket c) = (if plain_int d ''socket.tcp_keepalive_secs'' = 0 then 60 else plain_int d ''socket.tcp_keepalive_secs'') \<and>
    ReadBuffer (Socket c) = (if plain_int d ''socket.read_buffer'' = 0 then 262144 else plain_int d ''socket.read_buffer'') \<and>
    WriteBuffer (Socket c) = (if plain_int d ''socket.write_buffer'' = 0 then 262144 else plain_int d ''socket.write_buffer'') \<and>
    MaxInflight (BufferInflight c) = (if plain_int d ''buffer_inflight.max_inflight'' = 0 then 64 else plain_int d ''buffer_inflight.max_inflight'') \<and>
    BufferSize (BufferInflight c) = (if plain_int d ''buffer_inflight.buffer_size'' = 0 then 1000 else plain_int d ''buffer_inflight.buffer_size'') \<and>
    qos_Location (QoS c) = (case ints d ''qos.location'' of None \<Rightarrow> Some 1 | Some v \<Rightarrow> Some v) \<and>
    qos_Offer (QoS c) = (case ints d ''qos.offer'' of None \<Rightarrow> Some 1 | Some v \<Rightarrow> Some v) \<and>
    qos_Ride (QoS c) = (case ints d ''qos.ride'' of None \<Rightarrow> Some 1 | Some v \<Rightarrow> Some v) \<and>
    CleanSession (MQTT c) = (case bools d ''mqtt.clean_session'' of None \<Rightarrow> Some True | Some v \<Rightarrow> Some v) \<and>
    Enabled (Retry c) = (case bools d ''retry.enabled'' of None \<Rightarrow> Some True | Some v \<Rightarrow> Some v) \<and>
    (k \<in> set plain_int_keys \<longrightarrow>
       loadConfig (Doc (d\<lparr>ints := (ints d)(k \<mapsto> 0)\<rparr>)) =
       loadConfig (Doc (d\<lparr>ints := (ints d)(k := None)\<rparr>)))"
proof -
  have zero: "k \<in> set plain_int_keys \<longrightarrow>
       loadConfig (Doc (d\<lparr>ints := (ints d)(k \<mapsto> 0)\<rparr>)) =
       loadConfig (Doc (d\<lparr>ints := (ints d)(k := None)\<rparr>))"
    unfolding loadConfig_def by (simp add: unmarshal_zero_absent)
  show ?thesis
    unfolding loadConfig_def
    apply (simp only: file_content.case sum.case)
    apply (intro conjI)
    apply (simp_all add: apply_defaults_def unmarshal_def mqtt_defaults_def
        retry_defaults_def publish_defaults_def qos_defaults_def payload_defaults_def
        socket_defaults_def buffer_defaults_def or_default_def ptr_default_def
        split: option.splits)[21]
    using zero unfolding loadConfig_def by (simp only: file_content.case)
qed

theorem loadConfig_defaults_witness:
  "''mqtt.keepalive_secs'' \<in> set plain_int_keys \<and>
   loadConfig (Doc (empty_doc\<lparr>ints := (ints empty_doc)(''mqtt.keepalive_secs'' \<mapsto> 0)\<rparr>)) =
   loadConfig (Doc (empty_doc\<lparr>ints := (ints empty_doc)(''mqtt.keepalive_secs'' := None)\<rparr>))"
  using loadConfig_defaults [of empty_doc "''mqtt.keepalive_secs''"]
  by (auto simp: plain_int_keys_def split: sum.splits)

end
